theory Spec2Isabelle
  imports
    Main
    "HOL-Library.Char_ord"
    "HOL-Library.List_Lexorder"
    "HOL-Library.AList"
    "HOL-Library.Multiset"
    "HOL-Library.Sublist"
begin

section \<open>Paths, the file system and Python's exceptions\<close>

text \<open>
  A path is the list of its segments (\<open>pathlib\<close>'s \<open>parts\<close> without the anchor).
  The file system is a tree; a directory lists its entries in the order in which
  \<open>iterdir\<close> yields them, which the operating system chooses.
\<close>

type_synonym path = "string list"

datatype node = File string | Dir "(string \<times> node) list"

datatype error =
    FileNotFoundError
  | NotADirectoryError
  | FileExistsError
  | IsADirectoryError
  | BadZipFile
  | ValueError
  | IndexError
  | AttributeError
  | NotInSessionError
    \<comment> \<open>named by the specification only: no statement of \<open>cli.py\<close> raises it\<close>

fun is_dir_node :: "node \<Rightarrow> bool" where
  "is_dir_node (Dir cs) = True"
| "is_dir_node (File d) = False"

text \<open>Path resolution as the operating system does it, with its two ways to fail.\<close>

fun resolve :: "node \<Rightarrow> path \<Rightarrow> error + node" where
  "resolve n [] = Inr n"
| "resolve n (s # p) =
     (case n of
        File d \<Rightarrow> Inl NotADirectoryError
      | Dir cs \<Rightarrow> (case map_of cs s of
                    None \<Rightarrow> Inl FileNotFoundError
                  | Some c \<Rightarrow> resolve c p))"

definition is_dir :: "node \<Rightarrow> path \<Rightarrow> bool" where
  "is_dir fs p = (case resolve fs p of Inr (Dir cs) \<Rightarrow> True | _ \<Rightarrow> False)"

text \<open>\<open>put p new fs\<close> stores \<open>new\<close> at \<open>p\<close> when the parent of \<open>p\<close> is a directory.\<close>

fun put :: "path \<Rightarrow> node \<Rightarrow> node \<Rightarrow> node" where
  "put [] new n = new"
| "put (s # p) new n =
     (case n of
        File d \<Rightarrow> n
      | Dir cs \<Rightarrow> (case map_of cs s of
                    None \<Rightarrow> if p = [] then Dir (AList.update s new cs) else n
                  | Some c \<Rightarrow> Dir (AList.update s (put p new c) cs)))"

text \<open>
  \<open>Path.mkdir(exist_ok=...)\<close> with \<open>parents=False\<close>: a missing parent raises
  \<open>FileNotFoundError\<close>, a parent that is a file \<open>NotADirectoryError\<close>, an existing
  entry \<open>FileExistsError\<close> unless \<open>exist_ok\<close> holds and the entry is a directory.
\<close>

definition mkdir :: "bool \<Rightarrow> node \<Rightarrow> path \<Rightarrow> error + node" where
  "mkdir exist_ok fs p =
     (if p = [] then (if exist_ok \<and> is_dir_node fs then Inr fs else Inl FileExistsError)
      else case resolve fs (butlast p) of
             Inl e \<Rightarrow> Inl e
           | Inr (File d) \<Rightarrow> Inl NotADirectoryError
           | Inr (Dir cs) \<Rightarrow>
               (case map_of cs (last p) of
                  None \<Rightarrow> Inr (put p (Dir []) fs)
                | Some c \<Rightarrow> if exist_ok \<and> is_dir_node c then Inr fs
                            else Inl FileExistsError))"

definition iterdir :: "node \<Rightarrow> path \<Rightarrow> error + (string \<times> node) list" where
  "iterdir fs p =
     (case resolve fs p of
        Inl e \<Rightarrow> Inl e
      | Inr (File d) \<Rightarrow> Inl NotADirectoryError
      | Inr (Dir cs) \<Rightarrow> Inr cs)"

section \<open>The click context\<close>

text \<open>
  \<open>ctx.obj\<close> holds the directory of \<open>grading.toml\<close> and the configuration; of the
  configuration the commands read the names \<open>general.code_dir\<close> and
  \<open>general.submissions_dir\<close>, joined to \<open>grading_home\<close> as one segment each.
\<close>

record ctx =
  grading_home :: path
  cfg_code_dir :: string
  cfg_submissions_dir :: string

definition code_dir :: "ctx \<Rightarrow> path" where
  "code_dir c = grading_home c @ [cfg_code_dir c]"

definition submissions_dir :: "ctx \<Rightarrow> path" where
  "submissions_dir c = grading_home c @ [cfg_submissions_dir c]"

section \<open>\<open>get_students\<close>\<close>

definition subdir_names :: "(string \<times> node) list \<Rightarrow> string list" where
  "subdir_names cs = map fst (filter (\<lambda>e. is_dir_node (snd e)) cs)"

definition get_students :: "ctx \<Rightarrow> node \<Rightarrow> error + string list" where
  "get_students c fs =
     (case iterdir fs (code_dir c) of
        Inl e \<Rightarrow> Inl e
      | Inr cs \<Rightarrow> Inr (sort (subdir_names cs)))"

section \<open>\<open>find_pyproject_toml\<close>\<close>

text \<open>
  \<open>Path.glob("**/pyproject.toml")\<close> visits the directory itself and then its
  subdirectories, depth first in listing order, and yields the entry named
  \<open>pyproject.toml\<close> of each directory that has one; \<open>next\<close> takes the first.
  The result is the path of the entry relative to the directory searched.
\<close>

fun glob_first :: "string \<Rightarrow> node \<Rightarrow> path option"
  and glob_first_list :: "string \<Rightarrow> (string \<times> node) list \<Rightarrow> path option" where
  "glob_first name (File d) = None"
| "glob_first name (Dir cs) =
     (if map_of cs name \<noteq> None then Some [name] else glob_first_list name cs)"
| "glob_first_list name [] = None"
| "glob_first_list name (e # cs) =
     (case glob_first name (snd e) of
        Some p \<Rightarrow> Some (fst e # p)
      | None \<Rightarrow> glob_first_list name cs)"

definition find_pyproject_toml :: "ctx \<Rightarrow> node \<Rightarrow> string \<Rightarrow> path option" where
  "find_pyproject_toml c fs student =
     (case resolve fs (code_dir c @ [student]) of
        Inl e \<Rightarrow> None
      | Inr n \<Rightarrow> (case glob_first ''pyproject.toml'' n of
                    None \<Rightarrow> None
                  | Some p \<Rightarrow> Some (code_dir c @ [student] @ p)))"

section \<open>\<open>unpack\<close>\<close>

definition is_lower :: "char \<Rightarrow> bool" where
  "is_lower ch = (CHR ''a'' \<le> ch \<and> ch \<le> CHR ''z'')"

text \<open>
  \<open>re.match("(?P<name>[a-z]+)_", s)\<close>: the longest run of lower-case letters at the
  start of \<open>s\<close>, not empty and followed by an underscore; \<open>None\<close> when there is no
  match, as \<open>re.match\<close> returns.
\<close>

definition re_match_student :: "string \<Rightarrow> string option" where
  "re_match_student s =
     (let name = takeWhile is_lower s; rest = dropWhile is_lower s
      in if name \<noteq> [] \<and> take 1 rest = ''_'' then Some name else None)"

definition is_zip_name :: "string \<Rightarrow> bool" where
  "is_zip_name s = suffix ''.zip'' s"

definition glob_zip :: "node \<Rightarrow> path \<Rightarrow> string list" where
  "glob_zip fs p =
     (case resolve fs p of
        Inr (Dir cs) \<Rightarrow> filter is_zip_name (map fst cs)
      | _ \<Rightarrow> [])"

text \<open>
  Opening an archive: \<open>unzip\<close> is the decompression primitive, from the bytes of a
  file to the entries it extracts into an empty directory, \<open>None\<close> when the file is
  no zip archive.
\<close>

definition open_zip ::
  "(string \<Rightarrow> (string \<times> node) list option) \<Rightarrow> node \<Rightarrow> path \<Rightarrow> error + (string \<times> node) list" where
  "open_zip unzip fs p =
     (case resolve fs p of
        Inl e \<Rightarrow> Inl e
      | Inr (Dir cs) \<Rightarrow> Inl IsADirectoryError
      | Inr (File d) \<Rightarrow> (case unzip d of None \<Rightarrow> Inl BadZipFile | Some es \<Rightarrow> Inr es))"

text \<open>
  The loop of \<open>uncompress_submissions\<close> over the names that the glob listed. The result
  is the exception that ended the loop, if any, the file system left behind and the
  lines printed.
\<close>

fun unpack_loop ::
  "(string \<Rightarrow> (string \<times> node) list option) \<Rightarrow> ctx \<Rightarrow> node \<Rightarrow> string list
     \<Rightarrow> error option \<times> node \<times> string list" where
  "unpack_loop unzip c fs [] = (None, fs, [])"
| "unpack_loop unzip c fs (submission # rest) =
     (case re_match_student submission of
        None \<Rightarrow> (Some AttributeError, fs, [])
      | Some student \<Rightarrow>
          (let student_dir = code_dir c @ [student] in
           if \<not> is_dir fs student_dir then
             (case mkdir False fs student_dir of
                Inl e \<Rightarrow> (Some e, fs, [])
              | Inr fs1 \<Rightarrow>
                  (case open_zip unzip fs1 (submissions_dir c @ [submission]) of
                     Inl e \<Rightarrow> (Some e, fs1, [])
                   | Inr es \<Rightarrow>
                       (case unpack_loop unzip c (put student_dir (Dir es) fs1) rest of
                          (r, fs2, out) \<Rightarrow>
                            (r, fs2, (''[blue]Processed '' @ student @ ''.'') # out))))
           else unpack_loop unzip c fs rest))"

definition uncompress_submissions ::
  "(string \<Rightarrow> (string \<times> node) list option) \<Rightarrow> ctx \<Rightarrow> node
     \<Rightarrow> error option \<times> node \<times> string list" where
  "uncompress_submissions unzip c fs =
     (case mkdir True fs (code_dir c) of
        Inl e \<Rightarrow> (Some e, fs, [])
      | Inr fs1 \<Rightarrow> unpack_loop unzip c fs1 (glob_zip fs1 (submissions_dir c)))"

section \<open>Environments\<close>

definition make_env_name :: "string \<Rightarrow> string" where
  "make_env_name student = ''env_'' @ student"

definition path_name :: "path \<Rightarrow> string" where
  "path_name p = (if p = [] then [] else last p)"

text \<open>
  \<open>get_all_environments\<close>, from the list under \<open>"envs"\<close> of
  \<open>conda env list --json\<close>, each path split into its segments.
\<close>

definition get_all_environments :: "path list \<Rightarrow> string list" where
  "get_all_environments envs =
     map path_name (filter (\<lambda>p. path_name (butlast p) = ''envs'') envs)"

datatype cmd =
    CondaCreate string
  | CondaEnvRemove string
  | PoetryInstall string path
  | HelpModules string

datatype proc_result = Completed | CalledProcessError string

datatype event = Print string | Exec cmd

text \<open>
  The world outside the process: \<open>subprocess.run(..., check=True)\<close> either completes
  or raises \<open>CalledProcessError\<close> with the captured standard error, and changes the
  world; \<open>conda env list\<close> and the file system are read from it. The commands are
  \<open>conda create -n env python=3.9 --yes\<close>, \<open>conda env remove -n env\<close>,
  \<open>conda run -n env poetry install\<close> (in a working directory) and
  \<open>conda run -n env python -c "help('modules')"\<close>.
\<close>

record 'w system =
  sys_run :: "cmd \<Rightarrow> 'w \<Rightarrow> proc_result \<times> 'w"
  sys_envs :: "'w \<Rightarrow> path list"
  sys_files :: "'w \<Rightarrow> node"

fun create_loop ::
  "'w system \<Rightarrow> string list \<Rightarrow> bool \<Rightarrow> string list \<Rightarrow> 'w \<Rightarrow> event list \<times> 'w" where
  "create_loop sys environments force [] w = ([], w)"
| "create_loop sys environments force (student # rest) w =
     (let env_name = make_env_name student in
      if env_name \<notin> set environments \<or> force then
        (case sys_run sys (CondaCreate env_name) w of
           (Completed, w1) \<Rightarrow>
             (case create_loop sys environments force rest w1 of
                (ev, w2) \<Rightarrow>
                  (Print (''[blue]Creating '' @ env_name @ ''...'')
                     # Exec (CondaCreate env_name) # ev, w2))
         | (CalledProcessError err, w1) \<Rightarrow>
             ([Print (''[blue]Creating '' @ env_name @ ''...''),
               Exec (CondaCreate env_name),
               Print (''[bold red]Error creating environment: '' @ err)], w1))
      else create_loop sys environments force rest w)"

fun remove_loop ::
  "'w system \<Rightarrow> string list \<Rightarrow> string list \<Rightarrow> 'w \<Rightarrow> event list \<times> 'w" where
  "remove_loop sys environments [] w = ([], w)"
| "remove_loop sys environments (student # rest) w =
     (let env_name = make_env_name student in
      if env_name \<in> set environments then
        (case sys_run sys (CondaEnvRemove env_name) w of
           (Completed, w1) \<Rightarrow>
             (case remove_loop sys environments rest w1 of
                (ev, w2) \<Rightarrow>
                  (Print (''[blue]Removing '' @ env_name @ ''...'')
                     # Exec (CondaEnvRemove env_name) # ev, w2))
         | (CalledProcessError err, w1) \<Rightarrow>
             (case remove_loop sys environments rest w1 of
                (ev, w2) \<Rightarrow>
                  (Print (''[blue]Removing '' @ env_name @ ''...'')
                     # Exec (CondaEnvRemove env_name)
                     # Print (''[bold red]Error removing environment: '' @ err) # ev, w2)))
      else remove_loop sys environments rest w)"

fun install_loop ::
  "'w system \<Rightarrow> ctx \<Rightarrow> string list \<Rightarrow> string list \<Rightarrow> 'w \<Rightarrow> event list \<times> 'w" where
  "install_loop sys c environments [] w = ([], w)"
| "install_loop sys c environments (student # rest) w =
     (let env_name = make_env_name student in
      if env_name \<in> set environments then
        (case find_pyproject_toml c (sys_files sys w) student of
           None \<Rightarrow>
             (case install_loop sys c environments rest w of
                (ev, w2) \<Rightarrow>
                  (Print (''[bold red]Error: pyproject.toml not found for '' @ student) # ev, w2))
         | Some project_path \<Rightarrow>
             (case sys_run sys (PoetryInstall env_name (butlast project_path)) w of
                (CalledProcessError err, w1) \<Rightarrow>
                  (case install_loop sys c environments rest w1 of
                     (ev, w2) \<Rightarrow>
                       (Print (''[blue]Installing '' @ env_name @ ''...'')
                          # Exec (PoetryInstall env_name (butlast project_path))
                          # Print (''[bold red]Error installing environment: '' @ err) # ev, w2))
              | (Completed, w1) \<Rightarrow>
                  (case sys_run sys (HelpModules env_name) w1 of
                     (CalledProcessError err, w2) \<Rightarrow>
                       (case install_loop sys c environments rest w2 of
                          (ev, w3) \<Rightarrow>
                            (Print (''[blue]Installing '' @ env_name @ ''...'')
                               # Exec (PoetryInstall env_name (butlast project_path))
                               # Print (''[blue]Importing '' @ env_name @ ''...'')
                               # Exec (HelpModules env_name)
                               # Print (''[bold red]Error importing environment: '' @ err)
                               # ev, w3))
                   | (Completed, w2) \<Rightarrow>
                       (case install_loop sys c environments rest w2 of
                          (ev, w3) \<Rightarrow>
                            (Print (''[blue]Installing '' @ env_name @ ''...'')
                               # Exec (PoetryInstall env_name (butlast project_path))
                               # Print (''[blue]Importing '' @ env_name @ ''...'')
                               # Exec (HelpModules env_name)
                               # ev, w3)))))
      else install_loop sys c environments rest w)"

definition create_environments ::
  "'w system \<Rightarrow> ctx \<Rightarrow> bool \<Rightarrow> 'w \<Rightarrow> error + event list \<times> 'w" where
  "create_environments sys c force w =
     (let environments = get_all_environments (sys_envs sys w) in
      case get_students c (sys_files sys w) of
        Inl e \<Rightarrow> Inl e
      | Inr students \<Rightarrow> Inr (create_loop sys environments force students w))"

definition remove_environments ::
  "'w system \<Rightarrow> ctx \<Rightarrow> 'w \<Rightarrow> error + event list \<times> 'w" where
  "remove_environments sys c w =
     (let environments = get_all_environments (sys_envs sys w) in
      case get_students c (sys_files sys w) of
        Inl e \<Rightarrow> Inl e
      | Inr students \<Rightarrow> Inr (remove_loop sys environments students w))"

definition install_environments ::
  "'w system \<Rightarrow> ctx \<Rightarrow> 'w \<Rightarrow> error + event list \<times> 'w" where
  "install_environments sys c w =
     (let environments = get_all_environments (sys_envs sys w) in
      case get_students c (sys_files sys w) of
        Inl e \<Rightarrow> Inl e
      | Inr students \<Rightarrow> Inr (install_loop sys c environments students w))"

text \<open>\<open>list_environments\<close> returns the names it prints, in order.\<close>

definition list_environments :: "'w system \<Rightarrow> ctx \<Rightarrow> 'w \<Rightarrow> error + string list" where
  "list_environments sys c w =
     (let environments = get_all_environments (sys_envs sys w) in
      case get_students c (sys_files sys w) of
        Inl e \<Rightarrow> Inl e
      | Inr students \<Rightarrow>
          Inr (filter (\<lambda>student_env. student_env \<in> set environments)
                 (map make_env_name students)))"

fun executed :: "event list \<Rightarrow> cmd list" where
  "executed [] = []"
| "executed (Exec k # ev) = k # executed ev"
| "executed (Print s # ev) = executed ev"

section \<open>Shell integration\<close>

text \<open>
  \<open>start\<close> and \<open>next\<close> print \<open>cd "project_path";\<close> and \<open>conda activate env;\<close>;
  the model returns the pair \<open>(project_path, env)\<close>, or the exception raised.
\<close>

definition relative_to :: "path \<Rightarrow> path \<Rightarrow> error + path" where
  "relative_to p base =
     (if prefix base p then Inr (drop (length base) p) else Inl ValueError)"

definition list_index :: "string list \<Rightarrow> string \<Rightarrow> error + nat" where
  "list_index xs x =
     (if x \<in> set xs then Inr (length (takeWhile (\<lambda>y. y \<noteq> x) xs)) else Inl ValueError)"

definition start_grading :: "ctx \<Rightarrow> node \<Rightarrow> error + path \<times> string" where
  "start_grading c fs =
     (case get_students c fs of
        Inl e \<Rightarrow> Inl e
      | Inr students \<Rightarrow>
          (case students of
             [] \<Rightarrow> Inl IndexError
           | first_student # _ \<Rightarrow>
               (case find_pyproject_toml c fs first_student of
                  None \<Rightarrow> Inl AttributeError
                | Some project \<Rightarrow> Inr (butlast project, make_env_name first_student))))"

definition grade_next_student :: "ctx \<Rightarrow> node \<Rightarrow> path \<Rightarrow> error + path \<times> string" where
  "grade_next_student c fs cwd =
     (case relative_to cwd (code_dir c) of
        Inl e \<Rightarrow> Inl e
      | Inr current_dir \<Rightarrow>
          (case current_dir of
             [] \<Rightarrow> Inl IndexError
           | current_student # _ \<Rightarrow>
               (case get_students c fs of
                  Inl e \<Rightarrow> Inl e
                | Inr students \<Rightarrow>
                    (case list_index students current_student of
                       Inl e \<Rightarrow> Inl e
                     | Inr idx \<Rightarrow>
                         (let next_student = students ! ((idx + 1) mod length students) in
                          case find_pyproject_toml c fs next_student of
                            None \<Rightarrow> Inl AttributeError
                          | Some project \<Rightarrow>
                              Inr (butlast project, make_env_name next_student))))))"


section \<open>Example data\<close>

definition ex_ctx :: ctx where
  "ex_ctx = \<lparr>grading_home = [''home''], cfg_code_dir = ''code'',
             cfg_submissions_dir = ''submissions''\<rparr>"

definition ex_code :: "(string \<times> node) list" where
  "ex_code =
     [(''carol'', Dir [(''pyproject.toml'', File [])]),
      (''notes.txt'', File ''x''),
      (''alice'', Dir [(''hw'', Dir [(''pyproject.toml'', File [])])]),
      (''bob'', Dir [(''pyproject.toml'', File [])])]"

definition ex_fs :: node where
  "ex_fs = Dir [(''home'', Dir [(''grading.toml'', File []), (''code'', Dir ex_code)])]"

text \<open>The lines that report a failure start with \<open>[bold red]Error\<close>.\<close>

fun is_error_report :: "event \<Rightarrow> bool" where
  "is_error_report (Print s) = prefix ''[bold red]Error'' s"
| "is_error_report (Exec k) = False"

text \<open>
  An environment manager that fails on every command for \<open>env_bob\<close> and completes
  the others; its world is the list of the commands run so far.
\<close>

fun cmd_env :: "cmd \<Rightarrow> string" where
  "cmd_env (CondaCreate n) = n"
| "cmd_env (CondaEnvRemove n) = n"
| "cmd_env (PoetryInstall n d) = n"
| "cmd_env (HelpModules n) = n"

definition ex_run :: "cmd \<Rightarrow> cmd list \<Rightarrow> proc_result \<times> cmd list" where
  "ex_run k w =
     (if cmd_env k = ''env_bob'' then CalledProcessError ''boom'' else Completed, w @ [k])"

definition ex_envs :: "path list" where
  "ex_envs =
     [[''opt'', ''conda''],
      [''opt'', ''conda'', ''envs'', ''env_alice''],
      [''opt'', ''conda'', ''envs'', ''scratch''],
      [''opt'', ''conda'', ''envs'', ''env_bob''],
      [''opt'', ''conda'', ''envs'', ''env_carol'']]"

definition ex_sys :: "cmd list system" where
  "ex_sys = \<lparr>sys_run = ex_run, sys_envs = (\<lambda>w. ex_envs), sys_files = (\<lambda>w. ex_fs)\<rparr>"

text \<open>A manager on which only the import pass for \<open>env_bob\<close> fails.\<close>

definition ex_run_import :: "cmd \<Rightarrow> cmd list \<Rightarrow> proc_result \<times> cmd list" where
  "ex_run_import k w =
     (if k = HelpModules ''env_bob'' then CalledProcessError ''boom'' else Completed, w @ [k])"

definition ex_sys_import :: "cmd list system" where
  "ex_sys_import =
     \<lparr>sys_run = ex_run_import, sys_envs = (\<lambda>w. ex_envs), sys_files = (\<lambda>w. ex_fs)\<rparr>"

text \<open>A code directory without any student directory.\<close>

definition ex_fs_empty :: node where
  "ex_fs_empty =
     Dir [(''home'', Dir [(''grading.toml'', File []), (''code'', Dir [(''notes.txt'', File ''x'')])])]"


text \<open>
  A manager whose world is the list of environment paths: \<open>conda create\<close> completes
  and adds the environment under \<open>/opt/conda/envs\<close>.
\<close>

fun ex_conda_run :: "cmd \<Rightarrow> path list \<Rightarrow> proc_result \<times> path list" where
  "ex_conda_run (CondaCreate n) w = (Completed, w @ [[''opt'', ''conda'', ''envs'', n]])"
| "ex_conda_run k w = (Completed, w)"

definition ex_conda :: "path list system" where
  "ex_conda = \<lparr>sys_run = ex_conda_run, sys_envs = (\<lambda>w. w), sys_files = (\<lambda>w. ex_fs)\<rparr>"

text \<open>
  Submissions: two archives, a file whose name has no student token, and the
  decompression of their contents.
\<close>

definition ex_unzip :: "string \<Rightarrow> (string \<times> node) list option" where
  "ex_unzip d =
     (if d = ''A'' then Some [(''pyproject.toml'', File [])]
      else if d = ''B'' then Some [(''main.py'', File ''print'')]
      else None)"

definition ex_fs_sub :: node where
  "ex_fs_sub =
     Dir [(''home'', Dir [(''grading.toml'', File []),
        (''submissions'', Dir [(''alice_hw1.zip'', File ''A''),
                               (''notes.txt'', File ''x''),
                               (''bob_hw1.zip'', File ''B'')])])]"

definition ex_fs_unpacked :: node where
  "ex_fs_unpacked =
     Dir [(''home'', Dir [(''grading.toml'', File []),
        (''submissions'', Dir [(''alice_hw1.zip'', File ''A''),
                               (''notes.txt'', File ''x''),
                               (''bob_hw1.zip'', File ''B'')]),
        (''code'', Dir [(''alice'', Dir [(''pyproject.toml'', File [])]),
                        (''bob'', Dir [(''main.py'', File ''print'')])])])]"

definition ex_fs_bad_name :: node where
  "ex_fs_bad_name =
     Dir [(''home'', Dir [(''grading.toml'', File []),
        (''submissions'', Dir [(''alice_hw1.zip'', File ''A''),
                               (''2024-results.zip'', File ''A''),
                               (''bob_hw1.zip'', File ''B'')])])]"

definition ex_fs_bad_name_after :: node where
  "ex_fs_bad_name_after =
     Dir [(''home'', Dir [(''grading.toml'', File []),
        (''submissions'', Dir [(''alice_hw1.zip'', File ''A''),
                               (''2024-results.zip'', File ''A''),
                               (''bob_hw1.zip'', File ''B'')]),
        (''code'', Dir [(''alice'', Dir [(''pyproject.toml'', File [])])])])]"

section \<open>Roster resolution\<close>

lemma subdir_names_mset:
  "mset cs = mset cs' \<Longrightarrow> mset (subdir_names cs) = mset (subdir_names cs')"
  unfolding subdir_names_def by (metis mset_filter mset_map)

lemma sort_subdir_names_perm:
  assumes "mset cs = mset cs'"
  shows "sort (subdir_names cs) = sort (subdir_names cs')"
proof -
  have "mset (subdir_names cs) = mset (subdir_names cs')"
    using assms by (rule subdir_names_mset)
  then show ?thesis
    by (simp add: properties_for_sort)
qed

text \<open>
  Claim C7. When the code directory is a directory with the entries \<open>cs\<close>,
  \<open>get_students\<close> returns the names of exactly the entries that are directories
  (with their multiplicity), in lexicographic order; and the result does not depend
  on the order in which the operating system lists the entries, so two runs on the
  same directory contents give the same roster.
\<close>

theorem get_students_sorted_deterministic:
  assumes "resolve fs (code_dir c) = Inr (Dir cs)"
  shows "\<exists>students. get_students c fs = Inr students
           \<and> sorted students
           \<and> mset students = mset (subdir_names cs)
           \<and> set students = {n. \<exists>d. (n, Dir d) \<in> set cs}
           \<and> (\<forall>fs' cs'. resolve fs' (code_dir c) = Inr (Dir cs') \<longrightarrow> mset cs' = mset cs
                 \<longrightarrow> get_students c fs' = Inr students)"
proof -
  have g: "get_students c fs = Inr (sort (subdir_names cs))"
    using assms by (simp add: get_students_def iterdir_def)
  have s: "set (subdir_names cs) = {n. \<exists>d. (n, Dir d) \<in> set cs}"
  proof (rule set_eqI)
    fix n
    show "n \<in> set (subdir_names cs) \<longleftrightarrow> n \<in> {n. \<exists>d. (n, Dir d) \<in> set cs}"
    proof
      assume "n \<in> set (subdir_names cs)"
      then obtain e where e: "e \<in> set cs" "is_dir_node (snd e)" "fst e = n"
        by (auto simp: subdir_names_def)
      then obtain d where "snd e = Dir d" by (cases "snd e") auto
      with e have "e = (n, Dir d)" by (simp add: prod_eq_iff)
      with e have "(n, Dir d) \<in> set cs" by simp
      then show "n \<in> {n. \<exists>d. (n, Dir d) \<in> set cs}" by blast
    next
      assume "n \<in> {n. \<exists>d. (n, Dir d) \<in> set cs}"
      then obtain d where "(n, Dir d) \<in> set cs" by blast
      then show "n \<in> set (subdir_names cs)"
        by (force simp: subdir_names_def)
    qed
  qed
  have d: "\<forall>fs' cs'. resolve fs' (code_dir c) = Inr (Dir cs') \<longrightarrow> mset cs' = mset cs
             \<longrightarrow> get_students c fs' = Inr (sort (subdir_names cs))"
    by (auto simp: get_students_def iterdir_def dest: sort_subdir_names_perm)
  show ?thesis
    using g s d by simp
qed

theorem get_students_sorted_deterministic_witness:
  "resolve ex_fs (code_dir ex_ctx) = Inr (Dir ex_code)
   \<and> get_students ex_ctx ex_fs = Inr [''alice'', ''bob'', ''carol'']
   \<and> sorted [''alice'', ''bob'', ''carol'']
   \<and> set [''alice'', ''bob'', ''carol''] = {n. \<exists>d. (n, Dir d) \<in> set ex_code}"
proof -
  have r: "resolve ex_fs (code_dir ex_ctx) = Inr (Dir ex_code)"
    by (simp add: ex_fs_def ex_ctx_def code_dir_def)
  have g: "get_students ex_ctx ex_fs = Inr [''alice'', ''bob'', ''carol'']"
    by (simp add: get_students_def iterdir_def r subdir_names_def ex_code_def)
  from get_students_sorted_deterministic [OF r] g show ?thesis
    using r by auto
qed

section \<open>Batch error policy\<close>





lemmas ex_simps =
  ex_sys_def ex_run_def ex_sys_import_def ex_run_import_def ex_envs_def ex_fs_def
  ex_code_def ex_ctx_def make_env_name_def get_all_environments_def path_name_def
  find_pyproject_toml_def code_dir_def submissions_dir_def Let_def


section \<open>Shell integration: \<open>start\<close>\<close>

text \<open>
  Claim C9. \<open>start\<close> returns a pair only for a roster that is not empty: on the
  empty roster, that is on a code directory without a subdirectory, it raises
  \<open>IndexError\<close> from \<open>students[0]\<close>.
\<close>

theorem start_grading_empty_roster:
  "(get_students c fs = Inr [] \<longrightarrow> start_grading c fs = Inl IndexError)
   \<and> (resolve fs (code_dir c) = Inr (Dir cs) \<longrightarrow> subdir_names cs = []
        \<longrightarrow> start_grading c fs = Inl IndexError)
   \<and> (start_grading c fs = Inr r \<longrightarrow> (\<exists>s ss. get_students c fs = Inr (s # ss)))"
proof (intro conjI impI)
  assume "get_students c fs = Inr []"
  then show "start_grading c fs = Inl IndexError"
    by (simp add: start_grading_def)
next
  assume "resolve fs (code_dir c) = Inr (Dir cs)" and "subdir_names cs = []"
  then have "get_students c fs = Inr []"
    by (simp add: get_students_def iterdir_def)
  then show "start_grading c fs = Inl IndexError"
    by (simp add: start_grading_def)
next
  assume "start_grading c fs = Inr r"
  then show "\<exists>s ss. get_students c fs = Inr (s # ss)"
    by (auto simp: start_grading_def split: sum.splits list.splits)
qed

theorem start_grading_empty_roster_witness:
  "get_students ex_ctx ex_fs_empty = Inr []
   \<and> start_grading ex_ctx ex_fs_empty = Inl IndexError
   \<and> start_grading ex_ctx ex_fs = Inr ([''home'', ''code'', ''alice'', ''hw''], ''env_alice'')
   \<and> (\<exists>s ss. get_students ex_ctx ex_fs = Inr (s # ss))"
proof -
  have e: "get_students ex_ctx ex_fs_empty = Inr []"
    by (simp add: get_students_def iterdir_def subdir_names_def ex_fs_empty_def ex_simps)
  have r: "resolve ex_fs_empty (code_dir ex_ctx) = Inr (Dir [(''notes.txt'', File ''x'')])"
    by (simp add: ex_fs_empty_def ex_simps)
  have n: "subdir_names [(''notes.txt'', File ''x'')] = []"
    by (simp add: subdir_names_def)
  have g: "get_students ex_ctx ex_fs = Inr [''alice'', ''bob'', ''carol'']"
    by (simp add: get_students_def iterdir_def subdir_names_def ex_simps)
  have s: "start_grading ex_ctx ex_fs = Inr ([''home'', ''code'', ''alice'', ''hw''], ''env_alice'')"
    by (simp add: start_grading_def g) (simp add: ex_simps)
  have i: "start_grading ex_ctx ex_fs_empty = Inl IndexError"
    using start_grading_empty_roster [THEN conjunct1, rule_format (no_asm), OF e]
      start_grading_empty_roster [THEN conjunct2, THEN conjunct1, rule_format (no_asm), OF r n]
    by simp
  have x: "\<exists>s ss. get_students ex_ctx ex_fs = Inr (s # ss)"
    using start_grading_empty_roster [THEN conjunct2, THEN conjunct2, rule_format (no_asm), OF s] .
  from e i s x show ?thesis
    by simp
qed

section \<open>Listing environments\<close>

lemma make_env_name_prefix: "prefix ''env_'' (make_env_name s)"
  by (simp add: make_env_name_def)

text \<open>
  Claim C8. The names that \<open>env list\<close> prints are the names that the manager
  returned (of environments in a directory \<open>envs\<close>) which are the environment name
  of a student of the roster: each carries the prefix \<open>env_\<close> of the naming
  scheme, and a name returned by the manager that does not carry it is not listed.
\<close>

theorem list_environments_naming_scheme:
  assumes "list_environments sys c w = Inr names"
  shows "\<exists>students. get_students c (sys_files sys w) = Inr students
           \<and> set names = {n. n \<in> set (get_all_environments (sys_envs sys w))
                             \<and> (\<exists>s \<in> set students. n = make_env_name s)}
           \<and> (\<forall>n \<in> set names. prefix ''env_'' n)
           \<and> (\<forall>n \<in> set (get_all_environments (sys_envs sys w)).
                 \<not> prefix ''env_'' n \<longrightarrow> n \<notin> set names)"
proof -
  from assms obtain students where
    g: "get_students c (sys_files sys w) = Inr students" and
    n: "names = filter (\<lambda>e. e \<in> set (get_all_environments (sys_envs sys w)))
                  (map make_env_name students)"
    by (auto simp: list_environments_def Let_def split: sum.splits)
  have s: "set names = {n. n \<in> set (get_all_environments (sys_envs sys w))
                             \<and> (\<exists>s \<in> set students. n = make_env_name s)}"
    unfolding n by auto
  have p: "\<forall>n \<in> set names. prefix ''env_'' n"
    unfolding s using make_env_name_prefix by blast
  from g s p show ?thesis
    by blast
qed

theorem list_environments_naming_scheme_witness:
  "list_environments ex_sys ex_ctx [] = Inr [''env_alice'', ''env_bob'', ''env_carol'']
   \<and> get_all_environments (sys_envs ex_sys []) = [''env_alice'', ''scratch'', ''env_bob'', ''env_carol'']
   \<and> prefix ''env_'' ''env_alice'' \<and> prefix ''env_'' ''env_bob'' \<and> prefix ''env_'' ''env_carol''
   \<and> ''scratch'' \<notin> set [''env_alice'', ''env_bob'', ''env_carol'']"
proof -
  have g: "get_students ex_ctx ex_fs = Inr [''alice'', ''bob'', ''carol'']"
    by (simp add: get_students_def iterdir_def subdir_names_def ex_simps)
  have e: "get_all_environments (sys_envs ex_sys []) = [''env_alice'', ''scratch'', ''env_bob'', ''env_carol'']"
    by (simp add: ex_simps)
  have l: "list_environments ex_sys ex_ctx [] = Inr [''env_alice'', ''env_bob'', ''env_carol'']"
    unfolding list_environments_def e by (simp add: ex_sys_def g make_env_name_def)
  from list_environments_naming_scheme [OF l] e l show ?thesis
    by auto
qed

section \<open>Shell integration: \<open>next\<close>\<close>

lemma relative_to_append: "relative_to (base @ p) base = Inr p"
  by (simp add: relative_to_def)


theorem next_not_in_session_counterexample:
  "grade_next_student ex_ctx ex_fs [''tmp''] = Inl ValueError
   \<and> grade_next_student ex_ctx ex_fs [''tmp''] \<noteq> Inl NotInSessionError
   \<and> grade_next_student ex_ctx ex_fs [''home'', ''code'', ''dave''] = Inl ValueError
   \<and> grade_next_student ex_ctx ex_fs [''home'', ''code'', ''dave''] \<noteq> Inl NotInSessionError"
proof -
  have a: "grade_next_student ex_ctx ex_fs [''tmp''] = Inl ValueError"
    by (simp add: grade_next_student_def relative_to_def ex_simps)
  have b: "grade_next_student ex_ctx ex_fs [''home'', ''code'', ''dave''] = Inl ValueError"
    by (simp add: grade_next_student_def relative_to_def list_index_def get_students_def
        iterdir_def subdir_names_def ex_simps)
  from a b show ?thesis
    by simp
qed

text \<open>
  Claim C6, amended. \<open>next\<close> produces no pair and raises the \<open>ValueError\<close> of
  \<open>relative_to\<close> when the working directory is neither the code directory nor
  beneath it, the \<open>IndexError\<close> of \<open>parts[0]\<close> when it is the code directory
  itself, and the \<open>ValueError\<close> of \<open>list.index\<close> when its first segment beneath
  the code directory is not in the roster.
\<close>

theorem next_outside_session_fails:
  "(\<not> prefix (code_dir c) cwd \<longrightarrow> grade_next_student c fs cwd = Inl ValueError)
   \<and> (cwd = code_dir c \<longrightarrow> grade_next_student c fs cwd = Inl IndexError)
   \<and> (cwd = code_dir c @ seg # rest \<longrightarrow> get_students c fs = Inr students
        \<longrightarrow> seg \<notin> set students \<longrightarrow> grade_next_student c fs cwd = Inl ValueError)"
proof (intro conjI impI)
  assume "\<not> prefix (code_dir c) cwd"
  then show "grade_next_student c fs cwd = Inl ValueError"
    by (simp add: grade_next_student_def relative_to_def)
next
  assume "cwd = code_dir c"
  then show "grade_next_student c fs cwd = Inl IndexError"
    by (simp add: grade_next_student_def relative_to_def)
next
  assume "cwd = code_dir c @ seg # rest" and "get_students c fs = Inr students"
    and "seg \<notin> set students"
  then show "grade_next_student c fs cwd = Inl ValueError"
    by (simp add: grade_next_student_def relative_to_append list_index_def)
qed

theorem next_outside_session_fails_witness:
  "\<not> prefix (code_dir ex_ctx) [''tmp'']
   \<and> grade_next_student ex_ctx ex_fs [''tmp''] = Inl ValueError
   \<and> grade_next_student ex_ctx ex_fs [''home'', ''code''] = Inl IndexError
   \<and> ''dave'' \<notin> set [''alice'', ''bob'', ''carol'']
   \<and> grade_next_student ex_ctx ex_fs [''home'', ''code'', ''dave'', ''hw''] = Inl ValueError"
proof -
  have g: "get_students ex_ctx ex_fs = Inr [''alice'', ''bob'', ''carol'']"
    by (simp add: get_students_def iterdir_def subdir_names_def ex_simps)
  have p: "\<not> prefix (code_dir ex_ctx) [''tmp'']"
    by (simp add: ex_simps)
  have q: "[''home'', ''code''] = code_dir ex_ctx"
    by (simp add: ex_simps)
  have r: "[''home'', ''code'', ''dave'', ''hw''] = code_dir ex_ctx @ ''dave'' # [''hw'']"
    by (simp add: ex_simps)
  have d: "''dave'' \<notin> set [''alice'', ''bob'', ''carol'']"
    by simp
  note t = next_outside_session_fails [where c = ex_ctx and fs = ex_fs]
  from t [where cwd = "[''tmp'']", THEN conjunct1, rule_format (no_asm), OF p]
    t [where cwd = "[''home'', ''code'']", THEN conjunct2, THEN conjunct1, rule_format (no_asm), OF q]
    t [where cwd = "[''home'', ''code'', ''dave'', ''hw'']", THEN conjunct2, THEN conjunct2,
       rule_format (no_asm), OF r g d]
    p d
  show ?thesis
    by simp
qed










section \<open>Idempotent create\<close>

lemma create_loop_noop:
  "\<forall>s \<in> set students. make_env_name s \<in> set envs
     \<Longrightarrow> create_loop sys envs False students w = ([], w)"
  by (induction students) simp_all

lemma create_loop_executed:
  assumes "create_loop sys envs False students w = (ev, w1)"
    and "\<forall>e \<in> set ev. \<not> is_error_report e"
  shows "executed ev =
           map (\<lambda>s. CondaCreate (make_env_name s))
             (filter (\<lambda>s. make_env_name s \<notin> set envs) students)"
  using assms
proof (induction students arbitrary: w ev)
  case Nil
  then show ?case by simp
next
  case (Cons s students)
  show ?case
  proof (cases "make_env_name s \<in> set envs")
    case True
    with Cons show ?thesis by simp
  next
    case False
    obtain r w' where run: "sys_run sys (CondaCreate (make_env_name s)) w = (r, w')"
      by (cases "sys_run sys (CondaCreate (make_env_name s)) w")
    obtain ev' w'' where rest: "create_loop sys envs False students w' = (ev', w'')"
      by (cases "create_loop sys envs False students w'")
    show ?thesis
    proof (cases r)
      case (CalledProcessError err)
      with False run Cons.prems show ?thesis
        by (auto simp: Let_def)
    next
      case Completed
      with False run rest Cons.prems(1)
      have ev: "ev = Print (''[blue]Creating '' @ make_env_name s @ ''...'')
                  # Exec (CondaCreate (make_env_name s)) # ev'" and w: "w'' = w1"
        by (auto simp: Let_def)
      with Cons.prems(2) have "\<forall>e \<in> set ev'. \<not> is_error_report e"
        by simp
      moreover from rest w have "create_loop sys envs False students w' = (ev', w1)"
        by simp
      ultimately have "executed ev' =
           map (\<lambda>s. CondaCreate (make_env_name s))
             (filter (\<lambda>s. make_env_name s \<notin> set envs) students)"
        using Cons.IH by blast
      with ev False show ?thesis
        by simp
    qed
  qed
qed

lemma create_loop_registers:
  assumes K1: "\<forall>n w w'. sys_run sys (CondaCreate n) w = (Completed, w')
                 \<longrightarrow> n \<in> set (get_all_environments (sys_envs sys w'))"
    and K2: "\<forall>n w r w'. sys_run sys (CondaCreate n) w = (r, w')
                 \<longrightarrow> set (get_all_environments (sys_envs sys w))
                       \<subseteq> set (get_all_environments (sys_envs sys w'))"
    and "create_loop sys envs False students w = (ev, w1)"
    and "\<forall>e \<in> set ev. \<not> is_error_report e"
  shows "set (get_all_environments (sys_envs sys w)) \<subseteq> set (get_all_environments (sys_envs sys w1))
       \<and> (\<forall>s \<in> set students.
             make_env_name s \<in> set envs \<union> set (get_all_environments (sys_envs sys w1)))"
  using assms(3,4)
proof (induction students arbitrary: w ev)
  case Nil
  then show ?case by simp
next
  case (Cons s students)
  let ?E = "\<lambda>w. set (get_all_environments (sys_envs sys w))"
  show ?case
  proof (cases "make_env_name s \<in> set envs")
    case True
    with Cons.prems have "create_loop sys envs False students w = (ev, w1)"
      by simp
    from Cons.IH [OF this Cons.prems(2)] True show ?thesis
      by simp
  next
    case False
    obtain r w' where run: "sys_run sys (CondaCreate (make_env_name s)) w = (r, w')"
      by (cases "sys_run sys (CondaCreate (make_env_name s)) w")
    obtain ev' w'' where rest: "create_loop sys envs False students w' = (ev', w'')"
      by (cases "create_loop sys envs False students w'")
    show ?thesis
    proof (cases r)
      case (CalledProcessError err)
      with False run Cons.prems show ?thesis
        by (auto simp: Let_def)
    next
      case Completed
      with False run rest Cons.prems(1)
      have ev: "ev = Print (''[blue]Creating '' @ make_env_name s @ ''...'')
                  # Exec (CondaCreate (make_env_name s)) # ev'" and w: "w'' = w1"
        by (auto simp: Let_def)
      with Cons.prems(2) have ne: "\<forall>e \<in> set ev'. \<not> is_error_report e"
        by simp
      from rest w have "create_loop sys envs False students w' = (ev', w1)"
        by simp
      from Cons.IH [OF this ne] have
        sub: "?E w' \<subseteq> ?E w1" and
        all: "\<forall>s \<in> set students. make_env_name s \<in> set envs \<union> ?E w1"
        by simp_all
      from K1 run Completed have "make_env_name s \<in> ?E w'"
        by blast
      with sub have here: "make_env_name s \<in> ?E w1"
        by blast
      from K2 run have "?E w \<subseteq> ?E w'"
        by blast
      with sub have "?E w \<subseteq> ?E w1"
        by blast
      with here all show ?thesis
        by simp
    qed
  qed
qed

lemma create_loop_roster:
  assumes K3: "\<forall>n w r w'. sys_run sys (CondaCreate n) w = (r, w')
                 \<longrightarrow> get_students c (sys_files sys w') = get_students c (sys_files sys w)"
  shows "get_students c (sys_files sys (snd (create_loop sys envs force students w)))
           = get_students c (sys_files sys w)"
proof (induction students arbitrary: w)
  case Nil
  then show ?case by simp
next
  case (Cons s students)
  show ?case
  proof (cases "make_env_name s \<notin> set envs \<or> force")
    case False
    with Cons show ?thesis by simp
  next
    case True
    obtain r w' where run: "sys_run sys (CondaCreate (make_env_name s)) w = (r, w')"
      by (cases "sys_run sys (CondaCreate (make_env_name s)) w")
    with K3 have k: "get_students c (sys_files sys w') = get_students c (sys_files sys w)"
      by blast
    show ?thesis
    proof (cases r)
      case (CalledProcessError err)
      with True run k show ?thesis
        by (simp add: Let_def)
    next
      case Completed
      with True run have "snd (create_loop sys envs force (s # students) w)
          = snd (create_loop sys envs force students w')"
        by (simp add: Let_def split: prod.splits)
      with Cons.IH [of w'] k show ?thesis
        by simp
    qed
  qed
qed

text \<open>
  Claim C3. Without \<open>force\<close>, create does nothing for a student whose environment name
  is among the existing environments: no message, no external call, the world unchanged.
  Hence, for a manager that lists an environment once \<open>conda create\<close> has completed for
  it, keeps listing the environments it listed, and leaves the roster alone, a second
  \<open>env create\<close> after a first one that reported no error makes no external call; the
  first made one create call for each student without an environment.
\<close>

theorem create_idempotent:
  "((\<forall>s \<in> set students. make_env_name s \<in> set envs)
       \<longrightarrow> create_loop sys envs False students w = ([], w))
   \<and> ((\<forall>n w w'. sys_run sys (CondaCreate n) w = (Completed, w')
            \<longrightarrow> n \<in> set (get_all_environments (sys_envs sys w')))
       \<longrightarrow> (\<forall>n w r w'. sys_run sys (CondaCreate n) w = (r, w')
            \<longrightarrow> set (get_all_environments (sys_envs sys w))
                  \<subseteq> set (get_all_environments (sys_envs sys w')))
       \<longrightarrow> (\<forall>n w r w'. sys_run sys (CondaCreate n) w = (r, w')
            \<longrightarrow> get_students c (sys_files sys w') = get_students c (sys_files sys w))
       \<longrightarrow> create_environments sys c False w = Inr (ev, w1)
       \<longrightarrow> (\<forall>e \<in> set ev. \<not> is_error_report e)
       \<longrightarrow> create_environments sys c False w1 = Inr ([], w1)
           \<and> (\<exists>roster. get_students c (sys_files sys w) = Inr roster
                 \<and> executed ev =
                     map (\<lambda>s. CondaCreate (make_env_name s))
                       (filter (\<lambda>s. make_env_name s
                                       \<notin> set (get_all_environments (sys_envs sys w))) roster)))"
  (is "?noop \<and> ?twice")
proof (rule conjI)
  show ?noop
  proof (rule impI)
    assume "\<forall>s \<in> set students. make_env_name s \<in> set envs"
    then show "create_loop sys envs False students w = ([], w)"
      by (rule create_loop_noop)
  qed
next
  show ?twice
  proof (intro impI)
    let ?E = "\<lambda>w. get_all_environments (sys_envs sys w)"
    assume K1: "\<forall>n w w'. sys_run sys (CondaCreate n) w = (Completed, w') \<longrightarrow> n \<in> set (?E w')"
      and K2: "\<forall>n w r w'. sys_run sys (CondaCreate n) w = (r, w') \<longrightarrow> set (?E w) \<subseteq> set (?E w')"
      and K3: "\<forall>n w r w'. sys_run sys (CondaCreate n) w = (r, w')
                 \<longrightarrow> get_students c (sys_files sys w') = get_students c (sys_files sys w)"
      and run1: "create_environments sys c False w = Inr (ev, w1)"
      and ne: "\<forall>e \<in> set ev. \<not> is_error_report e"
    from run1 obtain roster where
      g: "get_students c (sys_files sys w) = Inr roster"
      by (cases "get_students c (sys_files sys w)") (simp_all add: create_environments_def)
    with run1 have l: "create_loop sys (?E w) False roster w = (ev, w1)"
      by (simp add: create_environments_def)
    have sub: "set (?E w) \<subseteq> set (?E w1)"
      and mem: "\<forall>s \<in> set roster. make_env_name s \<in> set (?E w) \<union> set (?E w1)"
      using create_loop_registers [OF K1 K2 l ne] by simp_all
    have all: "\<forall>s \<in> set roster. make_env_name s \<in> set (?E w1)"
    proof
      fix s
      assume "s \<in> set roster"
      with mem have "make_env_name s \<in> set (?E w) \<union> set (?E w1)" ..
      with sub show "make_env_name s \<in> set (?E w1)"
        by blast
    qed
    have "get_students c (sys_files sys (snd (create_loop sys (?E w) False roster w)))
        = get_students c (sys_files sys w)"
      using K3 by (rule create_loop_roster)
    with l g have g1: "get_students c (sys_files sys w1) = Inr roster"
      by simp
    have x: "executed ev =
        map (\<lambda>s. CondaCreate (make_env_name s))
          (filter (\<lambda>s. make_env_name s \<notin> set (?E w)) roster)"
      using l ne by (rule create_loop_executed)
    have "create_loop sys (?E w1) False roster w1 = ([], w1)"
      using all by (rule create_loop_noop)
    with g1 have second: "create_environments sys c False w1 = Inr ([], w1)"
      by (simp add: create_environments_def)
    from g x have "\<exists>roster. get_students c (sys_files sys w) = Inr roster
          \<and> executed ev =
              map (\<lambda>s. CondaCreate (make_env_name s))
                (filter (\<lambda>s. make_env_name s \<notin> set (?E w)) roster)"
      by (intro exI conjI)
    with second
    show "create_environments sys c False w1 = Inr ([], w1)
        \<and> (\<exists>roster. get_students c (sys_files sys w) = Inr roster
              \<and> executed ev =
                  map (\<lambda>s. CondaCreate (make_env_name s))
                    (filter (\<lambda>s. make_env_name s \<notin> set (?E w)) roster))"
      by (rule conjI)
  qed
qed

theorem create_idempotent_witness:
  "create_loop ex_conda [''env_alice'', ''env_bob''] False [''alice'', ''bob''] [] = ([], [])
   \<and> create_environments ex_conda ex_ctx False [[''opt'', ''conda'', ''envs'', ''env_bob'']] =
       Inr ([Print ''[blue]Creating env_alice...'', Exec (CondaCreate ''env_alice''),
             Print ''[blue]Creating env_carol...'', Exec (CondaCreate ''env_carol'')],
            [[''opt'', ''conda'', ''envs'', ''env_bob''],
             [''opt'', ''conda'', ''envs'', ''env_alice''],
             [''opt'', ''conda'', ''envs'', ''env_carol'']])
   \<and> create_environments ex_conda ex_ctx False
        [[''opt'', ''conda'', ''envs'', ''env_bob''],
         [''opt'', ''conda'', ''envs'', ''env_alice''],
         [''opt'', ''conda'', ''envs'', ''env_carol'']] =
       Inr ([], [[''opt'', ''conda'', ''envs'', ''env_bob''],
                 [''opt'', ''conda'', ''envs'', ''env_alice''],
                 [''opt'', ''conda'', ''envs'', ''env_carol'']])"
proof -
  let ?w = "[[''opt'', ''conda'', ''envs'', ''env_bob'']]"
  let ?w1 = "[[''opt'', ''conda'', ''envs'', ''env_bob''],
              [''opt'', ''conda'', ''envs'', ''env_alice''],
              [''opt'', ''conda'', ''envs'', ''env_carol'']]"
  let ?ev = "[Print ''[blue]Creating env_alice...'', Exec (CondaCreate ''env_alice''),
              Print ''[blue]Creating env_carol...'', Exec (CondaCreate ''env_carol'')]"
  have h0: "\<forall>s \<in> set [''alice'', ''bob'']. make_env_name s \<in> set [''env_alice'', ''env_bob'']"
    by (simp add: make_env_name_def)
  have snoc: "get_all_environments (w @ [[''opt'', ''conda'', ''envs'', n]])
      = get_all_environments w @ [n]" for w n
    by (simp add: get_all_environments_def path_name_def)
  have k1: "\<forall>n w w'. sys_run ex_conda (CondaCreate n) w = (Completed, w')
      \<longrightarrow> n \<in> set (get_all_environments (sys_envs ex_conda w'))"
    by (auto simp: ex_conda_def snoc)
  have k2: "\<forall>n w r w'. sys_run ex_conda (CondaCreate n) w = (r, w')
      \<longrightarrow> set (get_all_environments (sys_envs ex_conda w))
            \<subseteq> set (get_all_environments (sys_envs ex_conda w'))"
    by (auto simp: ex_conda_def get_all_environments_def)
  have k3: "\<forall>n w r w'. sys_run ex_conda (CondaCreate n) w = (r, w')
      \<longrightarrow> get_students ex_ctx (sys_files ex_conda w') = get_students ex_ctx (sys_files ex_conda w)"
    by (simp add: ex_conda_def)
  have g: "get_students ex_ctx ex_fs = Inr [''alice'', ''bob'', ''carol'']"
    by (simp add: get_students_def iterdir_def subdir_names_def ex_simps)
  have r1: "create_environments ex_conda ex_ctx False ?w = Inr (?ev, ?w1)"
    by (simp add: create_environments_def ex_conda_def g get_all_environments_def path_name_def
        make_env_name_def Let_def)
  have ne: "\<forall>e \<in> set ?ev. \<not> is_error_report e"
    by simp
  have A: "create_loop ex_conda [''env_alice'', ''env_bob''] False [''alice'', ''bob''] [] = ([], [])"
    using create_idempotent [THEN conjunct1, rule_format (no_asm), OF h0] .
  have B: "create_environments ex_conda ex_ctx False ?w1 = Inr ([], ?w1)"
    using create_idempotent [THEN conjunct2, rule_format (no_asm), OF k1 k2 k3 r1 ne]
    by (rule conjunct1)
  from A r1 B show ?thesis
    by (intro conjI)
qed

section \<open>The file system\<close>

lemma map_of_update: "map_of (AList.update k v al) = (map_of al)(k \<mapsto> v)"
  by (rule AList.update_conv')

lemma resolve_append:
  "resolve fs (p @ r) = (case resolve fs p of Inl e \<Rightarrow> Inl e | Inr n \<Rightarrow> resolve n r)"
  by (induction p arbitrary: fs) (auto split: node.splits option.splits)

lemma is_dir_Nil: "is_dir fs [] = is_dir_node fs"
  by (cases fs) (simp_all add: is_dir_def)

lemma is_dir_Cons:
  "is_dir fs (t # q) =
     (case fs of File d \<Rightarrow> False
      | Dir cs \<Rightarrow> (case map_of cs t of None \<Rightarrow> False | Some c \<Rightarrow> is_dir c q))"
  by (simp add: is_dir_def split: node.splits option.splits)

lemma resolve_put_same:
  "p \<noteq> [] \<Longrightarrow> resolve fs (butlast p) = Inr (Dir cs) \<Longrightarrow> resolve (put p new fs) p = Inr new"
proof (induction p arbitrary: fs)
  case Nil
  then show ?case by simp
next
  case (Cons s p)
  show ?case
  proof (cases "p = []")
    case True
    with Cons.prems show ?thesis
      by (simp add: map_of_update split: option.splits)
  next
    case False
    with Cons.prems obtain cs0 c0 where
      fs: "fs = Dir cs0" and c0: "map_of cs0 s = Some c0"
      and r: "resolve c0 (butlast p) = Inr (Dir cs)"
      by (auto split: node.splits option.splits)
    from Cons.IH [OF False r] fs c0 show ?thesis
      by (simp add: map_of_update)
  qed
qed

lemma put_keeps_dirs:
  assumes "is_dir fs q" and "is_dir_node new"
    and "\<forall>r. r \<noteq> [] \<longrightarrow> \<not> is_dir fs (p @ r)"
  shows "is_dir (put p new fs) q"
  using assms
proof (induction p arbitrary: fs q)
  case Nil
  show ?case
  proof (cases q)
    case Nil
    with \<open>is_dir_node new\<close> show ?thesis by (simp add: is_dir_Nil)
  next
    case (Cons t q')
    with Nil.prems(1,3) show ?thesis by auto
  qed
next
  case (Cons s p)
  show ?case
  proof (cases fs)
    case (File d)
    with Cons.prems(1) show ?thesis by simp
  next
    case (Dir cs)
    show ?thesis
    proof (cases q)
      case Nil
      with Dir show ?thesis
        by (simp add: is_dir_Nil split: option.splits)
    next
      case q: (Cons t q')
      show ?thesis
      proof (cases "map_of cs s")
        case None
        with Dir q Cons.prems(1) show ?thesis
          by (auto simp: is_dir_Cons map_of_update split: option.splits)
      next
        case (Some c0)
        show ?thesis
        proof (cases "t = s")
          case False
          with Dir q Some Cons.prems(1) show ?thesis
            by (simp add: is_dir_Cons map_of_update)
        next
          case True
          with Dir q Some Cons.prems(1) have d: "is_dir c0 q'"
            by (simp add: is_dir_Cons)
          from Dir Some Cons.prems(3) have "\<forall>r. r \<noteq> [] \<longrightarrow> \<not> is_dir c0 (p @ r)"
            by (simp add: is_dir_Cons)
          from Cons.IH [OF d Cons.prems(2) this] Dir q Some True show ?thesis
            by (simp add: is_dir_Cons map_of_update)
        qed
      qed
    qed
  qed
qed

lemma put_frame:
  "\<not> prefix q p \<Longrightarrow> \<not> prefix p q \<Longrightarrow> resolve (put p new fs) q = resolve fs q"
proof (induction p arbitrary: fs q)
  case Nil
  then show ?case by simp
next
  case (Cons s p)
  from Cons.prems obtain t q' where q: "q = t # q'"
    by (cases q) auto
  show ?case
  proof (cases fs)
    case (File d)
    then show ?thesis by simp
  next
    case (Dir cs)
    show ?thesis
    proof (cases "t = s")
      case False
      with Dir q show ?thesis
        by (simp add: map_of_update split: option.splits)
    next
      case True
      with q Cons.prems have np: "\<not> prefix q' p" "\<not> prefix p q'"
        by simp_all
      then have "p \<noteq> []" by auto
      with Cons.IH [OF np] Dir q True show ?thesis
        by (simp add: map_of_update split: option.splits)
    qed
  qed
qed

lemma mkdir_created:
  assumes "mkdir False fs p = Inr fs1" and "p \<noteq> []"
  shows "fs1 = put p (Dir []) fs \<and> (\<exists>cs. resolve fs (butlast p) = Inr (Dir cs))
         \<and> resolve fs p = Inl FileNotFoundError"
proof -
  from assms obtain cs where
    par: "resolve fs (butlast p) = Inr (Dir cs)" and
    none: "map_of cs (last p) = None" and
    fs1: "fs1 = put p (Dir []) fs"
    by (auto simp: mkdir_def split: sum.splits node.splits option.splits)
  from assms(2) have "resolve fs p = resolve fs (butlast p @ [last p])"
    by simp
  also from par none have "\<dots> = Inl FileNotFoundError"
    by (simp only: resolve_append) simp
  finally show ?thesis
    using par fs1 by blast
qed

lemma mkdir_exist_ok_dir:
  assumes "is_dir fs p"
  shows "mkdir True fs p = Inr fs"
proof (cases "p = []")
  case True
  with assms show ?thesis
    by (simp add: mkdir_def is_dir_Nil)
next
  case False
  then have p: "p = butlast p @ [last p]" by simp
  from assms obtain d where "resolve fs p = Inr (Dir d)"
    by (auto simp: is_dir_def split: sum.splits node.splits)
  then have "resolve fs (butlast p @ [last p]) = Inr (Dir d)"
    using p by simp
  then obtain cs where "resolve fs (butlast p) = Inr (Dir cs)" "map_of cs (last p) = Some (Dir d)"
    by (auto simp: resolve_append split: sum.splits node.splits option.splits)
  with False show ?thesis
    by (simp add: mkdir_def)
qed

lemma mkdir_exist_ok_absent:
  assumes "is_dir fs (butlast p)" and "p \<noteq> []" and "resolve fs p = Inl FileNotFoundError"
  shows "mkdir True fs p = Inr (put p (Dir []) fs) \<and> is_dir (put p (Dir []) fs) p"
proof -
  from assms(1) obtain cs where par: "resolve fs (butlast p) = Inr (Dir cs)"
    by (auto simp: is_dir_def split: sum.splits node.splits)
  from assms(2) have "resolve fs (butlast p @ [last p]) = resolve fs p"
    by simp
  with assms(3) par have "map_of cs (last p) = None"
    by (auto simp: resolve_append split: option.splits)
  with par assms(2) have "mkdir True fs p = Inr (put p (Dir []) fs)"
    by (simp add: mkdir_def)
  moreover from resolve_put_same [OF assms(2) par] have "is_dir (put p (Dir []) fs) p"
    by (simp add: is_dir_def)
  ultimately show ?thesis ..
qed

section \<open>Unpacking submissions\<close>

lemma absent_no_dirs_below:
  "resolve fs p = Inl e \<Longrightarrow> \<forall>r. r \<noteq> [] \<longrightarrow> \<not> is_dir fs (p @ r)"
  by (simp add: is_dir_def resolve_append)

lemma empty_dir_no_dirs_below:
  "resolve fs p = Inr (Dir []) \<Longrightarrow> \<forall>r. r \<noteq> [] \<longrightarrow> \<not> is_dir fs (p @ r)"
proof (intro allI impI)
  fix r :: path
  assume "resolve fs p = Inr (Dir [])" and "r \<noteq> []"
  then show "\<not> is_dir fs (p @ r)"
    by (cases r) (simp_all add: is_dir_def resolve_append)
qed

text \<open>One extraction: \<open>mkdir\<close> of the student directory, then the entries of the archive.\<close>

lemma extract_step:
  assumes "mkdir False fs p = Inr fs1" and "p \<noteq> []"
  shows "is_dir (put p (Dir es) fs1) p"
    and "is_dir fs q \<Longrightarrow> is_dir fs1 q"
    and "is_dir fs q \<Longrightarrow> is_dir (put p (Dir es) fs1) q"
proof -
  from mkdir_created [OF assms] obtain cs where
    fs1: "fs1 = put p (Dir []) fs" and
    par: "resolve fs (butlast p) = Inr (Dir cs)" and
    abs: "resolve fs p = Inl FileNotFoundError"
    by blast
  have e: "resolve fs1 p = Inr (Dir [])"
    unfolding fs1 using assms(2) par by (rule resolve_put_same)
  have k1: "is_dir fs1 q" if "is_dir fs q" for q
    unfolding fs1 using that absent_no_dirs_below [OF abs] by (simp add: put_keeps_dirs)
  have k2: "is_dir (put p (Dir es) fs1) q" if "is_dir fs1 q" for q
    using that empty_dir_no_dirs_below [OF e] by (simp add: put_keeps_dirs)
  from k1 [of "butlast p"] par have "is_dir fs1 (butlast p)"
    by (simp add: is_dir_def)
  then obtain cs1 where "resolve fs1 (butlast p) = Inr (Dir cs1)"
    by (auto simp: is_dir_def split: sum.splits node.splits)
  from resolve_put_same [OF assms(2) this] show "is_dir (put p (Dir es) fs1) p"
    by (simp add: is_dir_def)
  show "is_dir fs q \<Longrightarrow> is_dir fs1 q"
    by (rule k1)
  show "is_dir fs q \<Longrightarrow> is_dir (put p (Dir es) fs1) q"
    using k1 k2 by blast
qed

lemma extract_step_frame:
  assumes "mkdir False fs p = Inr fs1" and "p \<noteq> []"
    and "\<not> prefix q p" and "\<not> prefix p q"
  shows "resolve fs1 q = resolve fs q"
    and "resolve (put p (Dir es) fs1) q = resolve fs q"
proof -
  from mkdir_created [OF assms(1,2)] have fs1: "fs1 = put p (Dir []) fs"
    by blast
  show "resolve fs1 q = resolve fs q"
    unfolding fs1 using assms(3,4) by (rule put_frame)
  then show "resolve (put p (Dir es) fs1) q = resolve fs q"
    using assms(3,4) by (simp add: put_frame)
qed

lemma unpack_loop_extract:
  assumes "re_match_student a = Some student"
    and "\<not> is_dir fs (code_dir c @ [student])"
    and "mkdir False fs (code_dir c @ [student]) = Inr fs1"
    and "open_zip unzip fs1 (submissions_dir c @ [a]) = Inr es"
  shows "fst (snd (unpack_loop unzip c fs (a # subs)))
           = fst (snd (unpack_loop unzip c (put (code_dir c @ [student]) (Dir es) fs1) subs))"
  using assms by (simp split: prod.splits)

lemma unpack_loop_keeps_dirs:
  "is_dir fs q \<Longrightarrow> is_dir (fst (snd (unpack_loop unzip c fs subs))) q"
proof (induction subs arbitrary: fs)
  case Nil
  then show ?case by simp
next
  case (Cons a subs)
  show ?case
  proof (cases "re_match_student a")
    case None
    with Cons.prems show ?thesis by simp
  next
    case (Some student)
    let ?p = "code_dir c @ [student]"
    show ?thesis
    proof (cases "is_dir fs ?p")
      case True
      with Some Cons show ?thesis by simp
    next
      case False
      show ?thesis
      proof (cases "mkdir False fs ?p")
        case (Inl e)
        with Some False Cons.prems show ?thesis by simp
      next
        case (Inr fs1)
        have p: "?p \<noteq> []" by simp
        show ?thesis
        proof (cases "open_zip unzip fs1 (submissions_dir c @ [a])")
          case (Inl e)
          with Some False Inr extract_step(2) [OF Inr p Cons.prems] show ?thesis
            by simp
        next
          case es: (Inr es)
          from extract_step(3) [OF Inr p Cons.prems]
          have "is_dir (put ?p (Dir es) fs1) q" .
          from Cons.IH [OF this] unpack_loop_extract [OF Some False Inr es, of subs]
          show ?thesis
            by simp
        qed
      qed
    qed
  qed
qed

lemma unpack_loop_frame:
  assumes "cfg_code_dir c \<noteq> cfg_submissions_dir c"
  shows "resolve (fst (snd (unpack_loop unzip c fs subs))) (submissions_dir c)
           = resolve fs (submissions_dir c)"
proof (induction subs arbitrary: fs)
  case Nil
  then show ?case by simp
next
  case (Cons a subs)
  show ?case
  proof (cases "re_match_student a")
    case None
    then show ?thesis by simp
  next
    case (Some student)
    let ?p = "code_dir c @ [student]"
    have p: "?p \<noteq> []" by simp
    have n1: "\<not> prefix (submissions_dir c) ?p"
      using assms by (auto simp: submissions_dir_def code_dir_def prefix_def)
    have n2: "\<not> prefix ?p (submissions_dir c)"
      by (auto simp: submissions_dir_def code_dir_def prefix_def)
    show ?thesis
    proof (cases "is_dir fs ?p")
      case True
      with Some Cons show ?thesis by simp
    next
      case False
      show ?thesis
      proof (cases "mkdir False fs ?p")
        case (Inl e)
        with Some False show ?thesis by simp
      next
        case (Inr fs1)
        show ?thesis
        proof (cases "open_zip unzip fs1 (submissions_dir c @ [a])")
          case (Inl e)
          with Some False Inr extract_step_frame(1) [OF Inr p n1 n2] show ?thesis
            by simp
        next
          case es: (Inr es)
          from Cons.IH [of "put ?p (Dir es) fs1"] extract_step_frame(2) [OF Inr p n1 n2, of es]
            unpack_loop_extract [OF Some False Inr es, of subs]
          show ?thesis
            by simp
        qed
      qed
    qed
  qed
qed

lemma unpack_loop_done:
  assumes "unpack_loop unzip c fs subs = (None, fs', out)"
  shows "\<forall>a \<in> set subs. \<exists>student. re_match_student a = Some student
            \<and> is_dir fs' (code_dir c @ [student])"
  using assms
proof (induction subs arbitrary: fs out)
  case Nil
  then show ?case by simp
next
  case (Cons a subs)
  from Cons.prems obtain student where m: "re_match_student a = Some student"
    by (cases "re_match_student a") auto
  let ?p = "code_dir c @ [student]"
  have p: "?p \<noteq> []" by simp
  show ?case
  proof (cases "is_dir fs ?p")
    case True
    with m Cons.prems have l: "unpack_loop unzip c fs subs = (None, fs', out)"
      by simp
    from unpack_loop_keeps_dirs [OF True, where unzip = unzip and c = c and subs = subs] l
    have "is_dir fs' ?p"
      by simp
    with Cons.IH [OF l] m show ?thesis
      by simp
  next
    case False
    with m Cons.prems obtain fs1 where mk: "mkdir False fs ?p = Inr fs1"
      by (cases "mkdir False fs ?p") auto
    with m False Cons.prems obtain es where
      es: "open_zip unzip fs1 (submissions_dir c @ [a]) = Inr es"
      by (cases "open_zip unzip fs1 (submissions_dir c @ [a])") auto
    obtain r fs2 out' where
      l: "unpack_loop unzip c (put ?p (Dir es) fs1) subs = (r, fs2, out')"
      by (cases "unpack_loop unzip c (put ?p (Dir es) fs1) subs") auto
    with m False mk es Cons.prems have "r = None" "fs2 = fs'"
      by simp_all
    with l have l': "unpack_loop unzip c (put ?p (Dir es) fs1) subs = (None, fs', out')"
      by simp
    from unpack_loop_keeps_dirs [OF extract_step(1) [OF mk p, of es],
        where unzip = unzip and c = c and subs = subs] l'
    have "is_dir fs' ?p"
      by simp
    with Cons.IH [OF l'] m show ?thesis
      by simp
  qed
qed

lemma unpack_loop_skips:
  "\<forall>a \<in> set subs. \<exists>student. re_match_student a = Some student
       \<and> is_dir fs (code_dir c @ [student])
     \<Longrightarrow> unpack_loop unzip c fs subs = (None, fs, [])"
  by (induction subs) auto

text \<open>
  Claim C4. An archive whose student directory exists is skipped: a batch of such
  archives ends without an exception, prints nothing and leaves the file system as
  it was. So a second \<open>unpack\<close> after one that ended without an exception (the code
  and submissions directories being different) changes nothing and is no error.
\<close>

theorem unpack_idempotent:
  "((\<forall>a \<in> set subs. \<exists>student. re_match_student a = Some student
         \<and> is_dir fs (code_dir c @ [student]))
       \<longrightarrow> unpack_loop unzip c fs subs = (None, fs, []))
   \<and> (cfg_code_dir c \<noteq> cfg_submissions_dir c
       \<longrightarrow> uncompress_submissions unzip c fs = (None, fs', out)
       \<longrightarrow> uncompress_submissions unzip c fs' = (None, fs', []))"
  (is "?skip \<and> ?twice")
proof (rule conjI)
  show ?skip
    by (rule impI) (rule unpack_loop_skips)
next
  show ?twice
  proof (intro impI)
    assume diff: "cfg_code_dir c \<noteq> cfg_submissions_dir c"
      and run1: "uncompress_submissions unzip c fs = (None, fs', out)"
    from run1 obtain fs1 where
      mk: "mkdir True fs (code_dir c) = Inr fs1"
      by (cases "mkdir True fs (code_dir c)") (simp_all add: uncompress_submissions_def)
    let ?names = "glob_zip fs1 (submissions_dir c)"
    from run1 mk have l: "unpack_loop unzip c fs1 ?names = (None, fs', out)"
      by (simp add: uncompress_submissions_def)
    have "is_dir fs1 (code_dir c)"
    proof (cases "is_dir fs (code_dir c)")
      case True
      with mk mkdir_exist_ok_dir [OF True] show ?thesis by simp
    next
      case False
      from mk obtain cs where
        par: "resolve fs (butlast (code_dir c)) = Inr (Dir cs)" and
        cases: "(map_of cs (last (code_dir c)) = None \<and> fs1 = put (code_dir c) (Dir []) fs)
                \<or> (\<exists>d. map_of cs (last (code_dir c)) = Some d \<and> is_dir_node d \<and> fs1 = fs)"
        by (auto simp: mkdir_def code_dir_def split: sum.splits node.splits option.splits if_splits)
      have ne: "code_dir c \<noteq> []"
        by (simp add: code_dir_def)
      from cases show ?thesis
      proof
        assume "map_of cs (last (code_dir c)) = None \<and> fs1 = put (code_dir c) (Dir []) fs"
        with resolve_put_same [OF ne par, of "Dir []"] show ?thesis
          by (simp add: is_dir_def)
      next
        assume "\<exists>d. map_of cs (last (code_dir c)) = Some d \<and> is_dir_node d \<and> fs1 = fs"
        then obtain d where d: "map_of cs (last (code_dir c)) = Some d" "is_dir_node d" "fs1 = fs"
          by blast
        from ne have "resolve fs (code_dir c) = resolve fs (butlast (code_dir c) @ [last (code_dir c)])"
          by simp
        also from par d have "\<dots> = Inr d"
          by (simp only: resolve_append) simp
        finally have "is_dir fs (code_dir c)"
          using d(2) by (cases d) (simp_all add: is_dir_def)
        with False show ?thesis by simp
      qed
    qed
    from unpack_loop_keeps_dirs [OF this, where unzip = unzip and c = c and subs = ?names] l
    have "is_dir fs' (code_dir c)"
      by simp
    then have mk2: "mkdir True fs' (code_dir c) = Inr fs'"
      by (rule mkdir_exist_ok_dir)
    from unpack_loop_frame [OF diff, of unzip fs1 ?names] l
    have "resolve fs' (submissions_dir c) = resolve fs1 (submissions_dir c)"
      by simp
    then have names: "glob_zip fs' (submissions_dir c) = ?names"
      by (simp add: glob_zip_def)
    from unpack_loop_done [OF l] have "unpack_loop unzip c fs' ?names = (None, fs', [])"
      by (rule unpack_loop_skips)
    with mk2 names show "uncompress_submissions unzip c fs' = (None, fs', [])"
      by (simp add: uncompress_submissions_def)
  qed
qed

theorem unpack_idempotent_witness:
  "unpack_loop ex_unzip ex_ctx ex_fs_unpacked [''alice_hw1.zip'', ''bob_hw1.zip'']
     = (None, ex_fs_unpacked, [])
   \<and> uncompress_submissions ex_unzip ex_ctx ex_fs_sub =
       (None, ex_fs_unpacked, [''[blue]Processed alice.'', ''[blue]Processed bob.''])
   \<and> uncompress_submissions ex_unzip ex_ctx ex_fs_unpacked = (None, ex_fs_unpacked, [])"
proof -
  have m1: "re_match_student ''alice_hw1.zip'' = Some ''alice''"
    by code_simp
  have m2: "re_match_student ''bob_hw1.zip'' = Some ''bob''"
    by code_simp
  have d1: "is_dir ex_fs_unpacked (code_dir ex_ctx @ [''alice''])"
    by code_simp
  have d2: "is_dir ex_fs_unpacked (code_dir ex_ctx @ [''bob''])"
    by code_simp
  have h: "\<forall>a \<in> set [''alice_hw1.zip'', ''bob_hw1.zip''].
      \<exists>student. re_match_student a = Some student
        \<and> is_dir ex_fs_unpacked (code_dir ex_ctx @ [student])"
    using m1 m2 d1 d2 by simp
  have diff: "cfg_code_dir ex_ctx \<noteq> cfg_submissions_dir ex_ctx"
    by (simp add: ex_ctx_def)
  have run1: "uncompress_submissions ex_unzip ex_ctx ex_fs_sub =
      (None, ex_fs_unpacked, [''[blue]Processed alice.'', ''[blue]Processed bob.''])"
    by code_simp
  have A: "unpack_loop ex_unzip ex_ctx ex_fs_unpacked [''alice_hw1.zip'', ''bob_hw1.zip'']
      = (None, ex_fs_unpacked, [])"
    using unpack_idempotent [THEN conjunct1, rule_format (no_asm), OF h] .
  have B: "uncompress_submissions ex_unzip ex_ctx ex_fs_unpacked = (None, ex_fs_unpacked, [])"
    using unpack_idempotent [THEN conjunct2, rule_format (no_asm), OF diff run1] .
  from A run1 B show ?thesis
    by (intro conjI)
qed

text \<open>
  Claim C5, on an archive \<open>2024-results.zip\<close> between those of alice and bob:
  \<open>re.match\<close> returns \<open>None\<close> for it and \<open>.group\<close> raises \<open>AttributeError\<close>, which
  ends the batch; alice's archive was unpacked before, bob's is never reached, and
  no diagnostic is printed.
\<close>

theorem unpack_unmatched_name_aborts:
  "re_match_student ''2024-results.zip'' = None
   \<and> glob_zip ex_fs_bad_name (submissions_dir ex_ctx)
       = [''alice_hw1.zip'', ''2024-results.zip'', ''bob_hw1.zip'']
   \<and> uncompress_submissions ex_unzip ex_ctx ex_fs_bad_name
       = (Some AttributeError, ex_fs_bad_name_after, [''[blue]Processed alice.''])
   \<and> \<not> is_dir ex_fs_bad_name_after (code_dir ex_ctx @ [''bob''])"
proof (intro conjI)
  show "re_match_student ''2024-results.zip'' = None"
    by code_simp
  show "glob_zip ex_fs_bad_name (submissions_dir ex_ctx)
      = [''alice_hw1.zip'', ''2024-results.zip'', ''bob_hw1.zip'']"
    by code_simp
  show "uncompress_submissions ex_unzip ex_ctx ex_fs_bad_name
      = (Some AttributeError, ex_fs_bad_name_after, [''[blue]Processed alice.''])"
    by code_simp
  show "\<not> is_dir ex_fs_bad_name_after (code_dir ex_ctx @ [''bob''])"
    by code_simp
qed

text \<open>
  Claim C10. On a code directory that does not exist (in an existing
  \<open>grading_home\<close>), \<open>get_students\<close> raises \<open>FileNotFoundError\<close>, whereas \<open>unpack\<close>
  first creates it: the loop over the submissions starts in a file system in which
  the code directory is a directory, and it still is one in the file system that
  \<open>unpack\<close> leaves, however the loop ends. On a code directory that exists,
  \<open>mkdir(exist_ok=True)\<close> changes nothing.
\<close>

theorem unpack_creates_code_dir:
  "(is_dir fs (grading_home c) \<longrightarrow> resolve fs (code_dir c) = Inl FileNotFoundError
       \<longrightarrow> get_students c fs = Inl FileNotFoundError
           \<and> mkdir True fs (code_dir c) = Inr (put (code_dir c) (Dir []) fs)
           \<and> is_dir (put (code_dir c) (Dir []) fs) (code_dir c)
           \<and> uncompress_submissions unzip c fs =
               unpack_loop unzip c (put (code_dir c) (Dir []) fs)
                 (glob_zip (put (code_dir c) (Dir []) fs) (submissions_dir c))
           \<and> is_dir (fst (snd (uncompress_submissions unzip c fs))) (code_dir c))
   \<and> (is_dir fs (code_dir c)
       \<longrightarrow> mkdir True fs (code_dir c) = Inr fs
           \<and> is_dir (fst (snd (uncompress_submissions unzip c fs))) (code_dir c))"
  (is "?absent \<and> ?present")
proof (rule conjI)
  show ?absent
  proof (intro impI)
    let ?fs1 = "put (code_dir c) (Dir []) fs"
    assume home: "is_dir fs (grading_home c)"
      and abs: "resolve fs (code_dir c) = Inl FileNotFoundError"
    have ne: "code_dir c \<noteq> []" and bl: "butlast (code_dir c) = grading_home c"
      by (simp_all add: code_dir_def)
    from home bl have "is_dir fs (butlast (code_dir c))"
      by simp
    from mkdir_exist_ok_absent [OF this ne abs] have
      mk: "mkdir True fs (code_dir c) = Inr ?fs1" and d: "is_dir ?fs1 (code_dir c)"
      by simp_all
    have g: "get_students c fs = Inl FileNotFoundError"
      using abs by (simp add: get_students_def iterdir_def)
    have u: "uncompress_submissions unzip c fs =
        unpack_loop unzip c ?fs1 (glob_zip ?fs1 (submissions_dir c))"
      using mk by (simp add: uncompress_submissions_def)
    have "is_dir (fst (snd (unpack_loop unzip c ?fs1 (glob_zip ?fs1 (submissions_dir c)))))
        (code_dir c)"
      using d by (rule unpack_loop_keeps_dirs)
    with u have e: "is_dir (fst (snd (uncompress_submissions unzip c fs))) (code_dir c)"
      by simp
    from g mk d u e
    show "get_students c fs = Inl FileNotFoundError
        \<and> mkdir True fs (code_dir c) = Inr ?fs1
        \<and> is_dir ?fs1 (code_dir c)
        \<and> uncompress_submissions unzip c fs =
            unpack_loop unzip c ?fs1 (glob_zip ?fs1 (submissions_dir c))
        \<and> is_dir (fst (snd (uncompress_submissions unzip c fs))) (code_dir c)"
      by (intro conjI)
  qed
next
  show ?present
  proof (intro impI)
    assume d: "is_dir fs (code_dir c)"
    then have mk: "mkdir True fs (code_dir c) = Inr fs"
      by (rule mkdir_exist_ok_dir)
    have "is_dir (fst (snd (unpack_loop unzip c fs (glob_zip fs (submissions_dir c)))))
        (code_dir c)"
      using d by (rule unpack_loop_keeps_dirs)
    with mk have "is_dir (fst (snd (uncompress_submissions unzip c fs))) (code_dir c)"
      by (simp add: uncompress_submissions_def)
    with mk show "mkdir True fs (code_dir c) = Inr fs
        \<and> is_dir (fst (snd (uncompress_submissions unzip c fs))) (code_dir c)"
      by (rule conjI)
  qed
qed

theorem unpack_creates_code_dir_witness:
  "is_dir ex_fs_sub (grading_home ex_ctx)
   \<and> resolve ex_fs_sub (code_dir ex_ctx) = Inl FileNotFoundError
   \<and> get_students ex_ctx ex_fs_sub = Inl FileNotFoundError
   \<and> is_dir (put (code_dir ex_ctx) (Dir []) ex_fs_sub) (code_dir ex_ctx)
   \<and> is_dir (fst (snd (uncompress_submissions ex_unzip ex_ctx ex_fs_sub))) (code_dir ex_ctx)
   \<and> is_dir ex_fs_unpacked (code_dir ex_ctx)
   \<and> mkdir True ex_fs_unpacked (code_dir ex_ctx) = Inr ex_fs_unpacked"
proof -
  have h: "is_dir ex_fs_sub (grading_home ex_ctx)"
    by code_simp
  have a: "resolve ex_fs_sub (code_dir ex_ctx) = Inl FileNotFoundError"
    by code_simp
  have p: "is_dir ex_fs_unpacked (code_dir ex_ctx)"
    by code_simp
  note A = unpack_creates_code_dir [where unzip = ex_unzip, THEN conjunct1, rule_format (no_asm),
      OF h a]
  note B = unpack_creates_code_dir [where unzip = ex_unzip, THEN conjunct2, rule_format (no_asm),
      OF p]
  from A have "get_students ex_ctx ex_fs_sub = Inl FileNotFoundError"
    and "is_dir (put (code_dir ex_ctx) (Dir []) ex_fs_sub) (code_dir ex_ctx)"
    and "is_dir (fst (snd (uncompress_submissions ex_unzip ex_ctx ex_fs_sub))) (code_dir ex_ctx)"
    by blast+
  moreover from B have "mkdir True ex_fs_unpacked (code_dir ex_ctx) = Inr ex_fs_unpacked"
    by blast
  ultimately show ?thesis
    using h a p by (intro conjI)
qed

end
